theory Spec2Isabelle
  imports Main "HOL-Library.Word" "HOL-Library.Monad_Syntax" "HOL-Library.Multiset"
begin

unbundle bit_operations_syntax

section \<open>Machine types and protocol data units\<close>

type_synonym u8 = "8 word"
type_synonym u16 = "16 word"
type_synonym u32 = "32 word"
type_synonym uint = "64 word"

text \<open>
  The \<open>pdu\<close> struct is declared outside \<open>server.go\<close>; its three fields are the ones the
  server reads and writes (\<open>unitId\<close>, \<open>functionCode\<close>, \<open>payload\<close>).
\<close>

record pdu =
  unitId :: u8
  functionCode :: u8
  payload :: "u8 list"

text \<open>
  Function codes, with the values the doc comments of \<open>RequestHandler\<close> give them
  (0x01, 0x02, 0x03, 0x04, 0x05, 0x06, 0x0f, 0x10).
\<close>

definition FC_READ_COILS :: u8 where "FC_READ_COILS = 0x01"
definition FC_READ_DISCRETE_INPUTS :: u8 where "FC_READ_DISCRETE_INPUTS = 0x02"
definition FC_READ_HOLDING_REGISTERS :: u8 where "FC_READ_HOLDING_REGISTERS = 0x03"
definition FC_READ_INPUT_REGISTERS :: u8 where "FC_READ_INPUT_REGISTERS = 0x04"
definition FC_WRITE_SINGLE_COIL :: u8 where "FC_WRITE_SINGLE_COIL = 0x05"
definition FC_WRITE_SINGLE_REGISTER :: u8 where "FC_WRITE_SINGLE_REGISTER = 0x06"
definition FC_WRITE_MULTIPLE_COILS :: u8 where "FC_WRITE_MULTIPLE_COILS = 0x0f"
definition FC_WRITE_MULTIPLE_REGISTERS :: u8 where "FC_WRITE_MULTIPLE_REGISTERS = 0x10"

lemmas FC_defs =
  FC_READ_COILS_def FC_READ_DISCRETE_INPUTS_def FC_READ_HOLDING_REGISTERS_def
  FC_READ_INPUT_REGISTERS_def FC_WRITE_SINGLE_COIL_def FC_WRITE_SINGLE_REGISTER_def
  FC_WRITE_MULTIPLE_COILS_def FC_WRITE_MULTIPLE_REGISTERS_def

section \<open>Errors and exception codes\<close>

text \<open>
  Modelled from the spec: the error values are declared in \<open>modbus.go\<close>, outside
  \<open>server.go\<close>. The spec's taxonomy names the configuration error, the protocol error,
  and the errors behind the exception codes "illegal function, illegal data address,
  illegal data value, server device failure"; \<open>ErrOther\<close> stands for any other error
  value a handler may return ("or any other error", as the handler's contract says).
\<close>

datatype error =
    ErrConfigurationError
  | ErrProtocolError
  | ErrIllegalFunction
  | ErrIllegalDataAddress
  | ErrIllegalDataValue
  | ErrServerDeviceFailure
  | ErrOther string

text \<open>
  Modelled from the spec: the exception codes are constants of \<open>modbus.go\<close>. The spec
  calls them the standard Modbus exception codes, which are 1 to 4 for the four named.
\<close>

definition EX_ILLEGAL_FUNCTION :: u8 where "EX_ILLEGAL_FUNCTION = 0x01"
definition EX_ILLEGAL_DATA_ADDRESS :: u8 where "EX_ILLEGAL_DATA_ADDRESS = 0x02"
definition EX_ILLEGAL_DATA_VALUE :: u8 where "EX_ILLEGAL_DATA_VALUE = 0x03"
definition EX_SERVER_DEVICE_FAILURE :: u8 where "EX_SERVER_DEVICE_FAILURE = 0x04"

text \<open>
  Modelled from the spec: \<open>mapErrorToExceptionCode\<close> of \<open>modbus.go\<close>, "a fixed
  error to exception-code table (unrecognized errors default to server device failure)".
\<close>

fun mapErrorToExceptionCode :: "error \<Rightarrow> u8" where
  "mapErrorToExceptionCode ErrIllegalFunction = EX_ILLEGAL_FUNCTION"
| "mapErrorToExceptionCode ErrIllegalDataAddress = EX_ILLEGAL_DATA_ADDRESS"
| "mapErrorToExceptionCode ErrIllegalDataValue = EX_ILLEGAL_DATA_VALUE"
| "mapErrorToExceptionCode ErrServerDeviceFailure = EX_SERVER_DEVICE_FAILURE"
| "mapErrorToExceptionCode _ = EX_SERVER_DEVICE_FAILURE"

section \<open>Byte-order and bit-packing helpers\<close>

text \<open>
  Modelled from the spec: the encoding helpers (\<open>bytesToUint16\<close>, \<open>uint16ToBytes\<close>,
  \<open>uint16sToBytes\<close>, \<open>bytesToUint16s\<close>, \<open>encodeBools\<close>, \<open>decodeBools\<close>) are defined
  outside \<open>server.go\<close>. The spec fixes: "Byte order: big-endian for all multi-byte
  fields" and "bit index i (0-based from addr) lives at byte i/8, bit i%8,
  least-significant bit first"; a packed array of n bits takes ceil(n/8) bytes.
  \<open>BIG_ENDIAN\<close> is the only byte order \<open>server.go\<close> passes.
\<close>

datatype endianness = BIG_ENDIAN

fun bytesToUint16 :: "endianness \<Rightarrow> u8 list \<Rightarrow> u16" where
  "bytesToUint16 BIG_ENDIAN (hi # lo # _) = push_bit 8 (ucast hi) OR ucast lo"
| "bytesToUint16 BIG_ENDIAN _ = 0"

fun uint16ToBytes :: "endianness \<Rightarrow> u16 \<Rightarrow> u8 list" where
  "uint16ToBytes BIG_ENDIAN v = [ucast (drop_bit 8 v), ucast v]"

fun uint16sToBytes :: "endianness \<Rightarrow> u16 list \<Rightarrow> u8 list" where
  "uint16sToBytes e [] = []"
| "uint16sToBytes e (v # vs) = uint16ToBytes e v @ uint16sToBytes e vs"

fun bytesToUint16s :: "endianness \<Rightarrow> u8 list \<Rightarrow> u16 list" where
  "bytesToUint16s e (hi # lo # rest) = bytesToUint16 e [hi, lo] # bytesToUint16s e rest"
| "bytesToUint16s e _ = []"

definition encodeBools :: "bool list \<Rightarrow> u8 list" where
  "encodeBools bs =
     map (\<lambda>j. horner_sum of_bool 2 (take 8 (drop (8 * j) bs))) [0 ..< (length bs + 7) div 8]"

definition decodeBools :: "u16 \<Rightarrow> u8 list \<Rightarrow> bool list" where
  "decodeBools quantity bytes =
     map (\<lambda>i. bit (bytes ! (i div 8)) (i mod 8)) [0 ..< unat quantity]"

section \<open>Slices\<close>

text \<open>
  Go panics on an out-of-range index or slice bound. The accesses \<open>handleTransport\<close>
  makes to \<open>req.payload\<close> are modelled with the check written out: \<open>None\<close> is the panic.
  (Go bounds a slice expression by the capacity; the length used here is never larger,
  so the model panics whenever the program would.)
\<close>

definition indexGo :: "'a list \<Rightarrow> nat \<Rightarrow> 'a option" where
  "indexGo xs i = (if i < length xs then Some (xs ! i) else None)"

definition sliceGo :: "'a list \<Rightarrow> nat \<Rightarrow> nat \<Rightarrow> 'a list option" where
  "sliceGo xs lo hi =
     (if lo \<le> hi \<and> hi \<le> length xs then Some (take (hi - lo) (drop lo xs)) else None)"

definition sliceFromGo :: "'a list \<Rightarrow> nat \<Rightarrow> 'a list option" where
  "sliceFromGo xs lo = (if lo \<le> length xs then Some (drop lo xs) else None)"

section \<open>The request handler\<close>

text \<open>
  The \<open>RequestHandler\<close> interface: four user-supplied operations. A handler may keep
  state between calls (a write followed by a read), so each operation takes the handler's
  state \<open>'h\<close> and returns the new one next to its result \<open>(res, err)\<close>; \<open>None\<close> is the
  nil error, and a nil slice is the empty list.
\<close>

record 'h RequestHandler =
  HandleCoils ::
    "u8 \<Rightarrow> u16 \<Rightarrow> u16 \<Rightarrow> bool \<Rightarrow> bool list \<Rightarrow> 'h \<Rightarrow> (bool list \<times> error option) \<times> 'h"
  HandleDiscreteInputs ::
    "u8 \<Rightarrow> u16 \<Rightarrow> u16 \<Rightarrow> 'h \<Rightarrow> (bool list \<times> error option) \<times> 'h"
  HandleHoldingRegisters ::
    "u8 \<Rightarrow> u16 \<Rightarrow> u16 \<Rightarrow> bool \<Rightarrow> u16 list \<Rightarrow> 'h \<Rightarrow> (u16 list \<times> error option) \<times> 'h"
  HandleInputRegisters ::
    "u8 \<Rightarrow> u16 \<Rightarrow> u16 \<Rightarrow> 'h \<Rightarrow> (u16 list \<times> error option) \<times> 'h"

section \<open>The dispatcher: the switch of handleTransport\<close>

text \<open>
  Each case of the switch yields the three variables the tail of the loop looks at: the
  response \<open>res\<close> (\<open>None\<close> is nil), the error \<open>err\<close> (\<open>None\<close> is nil) and the handler's
  state. A \<open>break\<close> leaves the case with \<open>res\<close> still nil. The outer \<open>option\<close> is the
  panic of an out-of-range access.
\<close>

type_synonym 'h dispatched = "(pdu option \<times> error option \<times> 'h) option"

definition failWith :: "error \<Rightarrow> 'h \<Rightarrow> 'h dispatched" where
  "failWith e h = Some (None, Some e, h)"

text \<open>
  The decoded address and quantity fields of a request:
  \<open>bytesToUint16(BIG_ENDIAN, req.payload[0:2])\<close> and
  \<open>bytesToUint16(BIG_ENDIAN, req.payload[2:4])\<close>, for a payload long enough to hold them.
\<close>

definition reqAddr :: "pdu \<Rightarrow> u16" where
  "reqAddr req = bytesToUint16 BIG_ENDIAN (take 2 (payload req))"

definition reqQuantity :: "pdu \<Rightarrow> u16" where
  "reqQuantity req = bytesToUint16 BIG_ENDIAN (take 2 (drop 2 (payload req)))"

text \<open>"invoke the appropriate handler": the two-way choice made by each read case.\<close>

definition invokeReadBits ::
  "'h RequestHandler \<Rightarrow> pdu \<Rightarrow> u16 \<Rightarrow> u16 \<Rightarrow> 'h \<Rightarrow> (bool list \<times> error option) \<times> 'h" where
  "invokeReadBits H req addr quantity h =
     (if functionCode req = FC_READ_COILS
      then HandleCoils H (unitId req) addr quantity False [] h
      else HandleDiscreteInputs H (unitId req) addr quantity h)"

definition invokeReadRegisters ::
  "'h RequestHandler \<Rightarrow> pdu \<Rightarrow> u16 \<Rightarrow> u16 \<Rightarrow> 'h \<Rightarrow> (u16 list \<times> error option) \<times> 'h" where
  "invokeReadRegisters H req addr quantity h =
     (if functionCode req = FC_READ_HOLDING_REGISTERS
      then HandleHoldingRegisters H (unitId req) addr quantity False [] h
      else HandleInputRegisters H (unitId req) addr quantity h)"

text \<open>case FC_READ_COILS, FC_READ_DISCRETE_INPUTS\<close>

definition caseReadBits :: "'h RequestHandler \<Rightarrow> pdu \<Rightarrow> 'h \<Rightarrow> 'h dispatched" where
  "caseReadBits H req h =
     (if length (payload req) \<noteq> 4 then failWith ErrProtocolError h
      else do {
        a \<leftarrow> sliceGo (payload req) 0 2;
        q \<leftarrow> sliceGo (payload req) 2 4;
        let addr = bytesToUint16 BIG_ENDIAN a;
        let quantity = bytesToUint16 BIG_ENDIAN q;
        if quantity > 2000 \<or> quantity = 0 then failWith ErrProtocolError h
        else if (ucast addr :: u32) + ucast quantity - 1 > 0xffff
          then failWith ErrIllegalDataAddress h
        else
          (case invokeReadBits H req addr quantity h of
             ((coils, err), h') \<Rightarrow>
               let resCount = length coils in
               if err = None \<and> resCount \<noteq> unat quantity then failWith ErrServerDeviceFailure h'
               else if err \<noteq> None then Some (None, err, h')
               else Some (Some \<lparr>unitId = unitId req, functionCode = functionCode req,
                                payload = (of_nat (resCount div 8) +
                                            (if resCount mod 8 \<noteq> 0 then 1 else 0))
                                          # encodeBools coils\<rparr>,
                          None, h'))
      })"

text \<open>case FC_WRITE_SINGLE_COIL\<close>

definition caseWriteSingleCoil :: "'h RequestHandler \<Rightarrow> pdu \<Rightarrow> 'h \<Rightarrow> 'h dispatched" where
  "caseWriteSingleCoil H req h =
     (if length (payload req) \<noteq> 4 then failWith ErrProtocolError h
      else do {
        a \<leftarrow> sliceGo (payload req) 0 2;
        let addr = bytesToUint16 BIG_ENDIAN a;
        p2 \<leftarrow> indexGo (payload req) 2;
        p3 \<leftarrow> indexGo (payload req) 3;
        if (p2 \<noteq> 0xff \<and> p2 \<noteq> 0x00) \<or> p3 \<noteq> 0x00 then failWith ErrProtocolError h
        else
          (case HandleCoils H (unitId req) addr 1 True [p2 = 0xff] h of
             ((_, err), h') \<Rightarrow>
               if err \<noteq> None then Some (None, err, h')
               else Some (Some \<lparr>unitId = unitId req, functionCode = functionCode req,
                                payload = uint16ToBytes BIG_ENDIAN addr @ [p2, p3]\<rparr>,
                          None, h'))
      })"

text \<open>case FC_WRITE_MULTIPLE_COILS\<close>

definition caseWriteMultipleCoils :: "'h RequestHandler \<Rightarrow> pdu \<Rightarrow> 'h \<Rightarrow> 'h dispatched" where
  "caseWriteMultipleCoils H req h =
     (if length (payload req) < 6 then failWith ErrProtocolError h
      else do {
        a \<leftarrow> sliceGo (payload req) 0 2;
        q \<leftarrow> sliceGo (payload req) 2 4;
        let addr = bytesToUint16 BIG_ENDIAN a;
        let quantity = bytesToUint16 BIG_ENDIAN q;
        if quantity > 0x7b0 \<or> quantity = 0 then failWith ErrProtocolError h
        else if (ucast addr :: u32) + ucast quantity - 1 > 0xffff
          then failWith ErrIllegalDataAddress h
        else do {
          let expectedLen = unat quantity div 8 + (if quantity mod 8 \<noteq> 0 then 1 else 0);
          p4 \<leftarrow> indexGo (payload req) 4;
          if p4 \<noteq> of_nat expectedLen then failWith ErrProtocolError h
          else if int (length (payload req)) - 5 \<noteq> int expectedLen
            then failWith ErrProtocolError h
          else do {
            tail \<leftarrow> sliceFromGo (payload req) 5;
            (case HandleCoils H (unitId req) addr quantity True (decodeBools quantity tail) h of
               ((_, err), h') \<Rightarrow>
                 if err \<noteq> None then Some (None, err, h')
                 else Some (Some \<lparr>unitId = unitId req, functionCode = functionCode req,
                                  payload = uint16ToBytes BIG_ENDIAN addr
                                            @ uint16ToBytes BIG_ENDIAN quantity\<rparr>,
                            None, h'))
          }
        }
      })"

text \<open>case FC_READ_HOLDING_REGISTERS, FC_READ_INPUT_REGISTERS\<close>

definition caseReadRegisters :: "'h RequestHandler \<Rightarrow> pdu \<Rightarrow> 'h \<Rightarrow> 'h dispatched" where
  "caseReadRegisters H req h =
     (if length (payload req) \<noteq> 4 then failWith ErrProtocolError h
      else do {
        a \<leftarrow> sliceGo (payload req) 0 2;
        q \<leftarrow> sliceGo (payload req) 2 4;
        let addr = bytesToUint16 BIG_ENDIAN a;
        let quantity = bytesToUint16 BIG_ENDIAN q;
        if quantity > 0x007d \<or> quantity = 0 then failWith ErrProtocolError h
        else if (ucast addr :: u32) + ucast quantity - 1 > 0xffff
          then failWith ErrIllegalDataAddress h
        else
          (case invokeReadRegisters H req addr quantity h of
             ((regs, err), h') \<Rightarrow>
               let resCount = length regs in
               if err = None \<and> resCount \<noteq> unat quantity then failWith ErrServerDeviceFailure h'
               else if err \<noteq> None then Some (None, err, h')
               else Some (Some \<lparr>unitId = unitId req, functionCode = functionCode req,
                                payload = of_nat (resCount * 2)
                                          # uint16sToBytes BIG_ENDIAN regs\<rparr>,
                          None, h'))
      })"

text \<open>case FC_WRITE_SINGLE_REGISTER\<close>

definition caseWriteSingleRegister :: "'h RequestHandler \<Rightarrow> pdu \<Rightarrow> 'h \<Rightarrow> 'h dispatched" where
  "caseWriteSingleRegister H req h =
     (if length (payload req) \<noteq> 4 then failWith ErrProtocolError h
      else do {
        a \<leftarrow> sliceGo (payload req) 0 2;
        v \<leftarrow> sliceGo (payload req) 2 4;
        let addr = bytesToUint16 BIG_ENDIAN a;
        let val = bytesToUint16 BIG_ENDIAN v;
        (case HandleHoldingRegisters H (unitId req) addr 1 True [val] h of
           ((_, err), h') \<Rightarrow>
             if err \<noteq> None then Some (None, err, h')
             else Some (Some \<lparr>unitId = unitId req, functionCode = functionCode req,
                              payload = uint16ToBytes BIG_ENDIAN addr
                                        @ uint16ToBytes BIG_ENDIAN val\<rparr>,
                        None, h'))
      })"

text \<open>case FC_WRITE_MULTIPLE_REGISTERS\<close>

definition caseWriteMultipleRegisters :: "'h RequestHandler \<Rightarrow> pdu \<Rightarrow> 'h \<Rightarrow> 'h dispatched" where
  "caseWriteMultipleRegisters H req h =
     (if length (payload req) < 6 then failWith ErrProtocolError h
      else do {
        a \<leftarrow> sliceGo (payload req) 0 2;
        q \<leftarrow> sliceGo (payload req) 2 4;
        let addr = bytesToUint16 BIG_ENDIAN a;
        let quantity = bytesToUint16 BIG_ENDIAN q;
        if quantity > 0x007b \<or> quantity = 0 then failWith ErrProtocolError h
        else if (ucast addr :: u32) + ucast quantity - 1 > 0xffff
          then failWith ErrIllegalDataAddress h
        else do {
          let expectedLen = unat quantity * 2;
          p4 \<leftarrow> indexGo (payload req) 4;
          if p4 \<noteq> of_nat expectedLen then failWith ErrProtocolError h
          else if int (length (payload req)) - 5 \<noteq> int expectedLen
            then failWith ErrProtocolError h
          else do {
            tail \<leftarrow> sliceFromGo (payload req) 5;
            (case HandleHoldingRegisters H (unitId req) addr quantity True
                    (bytesToUint16s BIG_ENDIAN tail) h of
               ((_, err), h') \<Rightarrow>
                 if err \<noteq> None then Some (None, err, h')
                 else Some (Some \<lparr>unitId = unitId req, functionCode = functionCode req,
                                  payload = uint16ToBytes BIG_ENDIAN addr
                                            @ uint16ToBytes BIG_ENDIAN quantity\<rparr>,
                            None, h'))
          }
        }
      })"

text \<open>The switch on \<open>req.functionCode\<close>, with its default case.\<close>

definition dispatch :: "'h RequestHandler \<Rightarrow> pdu \<Rightarrow> 'h \<Rightarrow> 'h dispatched" where
  "dispatch H req h =
     (let fc = functionCode req in
      if fc = FC_READ_COILS \<or> fc = FC_READ_DISCRETE_INPUTS then caseReadBits H req h
      else if fc = FC_WRITE_SINGLE_COIL then caseWriteSingleCoil H req h
      else if fc = FC_WRITE_MULTIPLE_COILS then caseWriteMultipleCoils H req h
      else if fc = FC_READ_HOLDING_REGISTERS \<or> fc = FC_READ_INPUT_REGISTERS
        then caseReadRegisters H req h
      else if fc = FC_WRITE_SINGLE_REGISTER then caseWriteSingleRegister H req h
      else if fc = FC_WRITE_MULTIPLE_REGISTERS then caseWriteMultipleRegisters H req h
      else Some (Some \<lparr>unitId = unitId req, functionCode = 0x80 OR fc,
                       payload = [EX_ILLEGAL_FUNCTION]\<rparr>,
                 None, h))"

section \<open>The transport and the worker loop\<close>

text \<open>
  Modelled from the spec: the \<open>transport\<close> interface is implemented outside \<open>server.go\<close>;
  it "already delivers/accepts whole protocol data units". Its state is the requests
  still to come (a read fails once they are exhausted: timeout, reset or closed link), the
  responses handed to \<open>WriteResponse\<close> so far, in order, and whether \<open>Close\<close> was called.
\<close>

record transport =
  incoming :: "pdu list"
  written :: "pdu list"
  closed :: bool

definition ReadRequest :: "transport \<Rightarrow> pdu option \<times> transport" where
  "ReadRequest t =
     (case incoming t of
        [] \<Rightarrow> (None, t)
      | r # rs \<Rightarrow> (Some r, t\<lparr>incoming := rs\<rparr>))"

definition WriteResponse :: "transport \<Rightarrow> pdu \<Rightarrow> transport" where
  "WriteResponse t res = t\<lparr>written := written t @ [res]\<rparr>"

definition Close :: "transport \<Rightarrow> transport" where
  "Close t = t\<lparr>closed := True\<rparr>"

definition errorPdu :: "pdu \<Rightarrow> error \<Rightarrow> pdu" where
  "errorPdu req e =
     \<lparr>unitId = unitId req, functionCode = 0x80 OR functionCode req,
      payload = [mapErrorToExceptionCode e]\<rparr>"

text \<open>
  One turn of the loop of \<open>handleTransport\<close> after a successful read: the switch, the
  defensive check, the error mapping and the write. The boolean tells whether the loop
  goes on (\<open>False\<close> is the \<open>return\<close> after \<open>t.Close()\<close>). A nil \<open>res\<close> reaching
  \<open>WriteResponse\<close> is the failure value as well.
\<close>

definition handleRequest ::
  "'h RequestHandler \<Rightarrow> pdu \<Rightarrow> transport \<Rightarrow> 'h \<Rightarrow> (bool \<times> transport \<times> 'h) option" where
  "handleRequest H req t h =
     (case dispatch H req h of
        None \<Rightarrow> None
      | Some (res, err, h') \<Rightarrow>
          let err' = (if err = None \<and> res = None then Some ErrServerDeviceFailure else err) in
          (case err' of
             Some e \<Rightarrow>
               if e = ErrProtocolError then Some (False, Close t, h')
               else Some (True, WriteResponse t (errorPdu req e), h')
           | None \<Rightarrow>
               (case res of
                  Some r \<Rightarrow> Some (True, WriteResponse t r, h')
                | None \<Rightarrow> None)))"

lemma handleRequest_incoming:
  "handleRequest H req t h = Some (c, t', h') \<Longrightarrow> incoming t' = incoming t"
  by (auto simp: handleRequest_def WriteResponse_def Close_def Let_def
      split: option.splits if_splits prod.splits)

lemma ReadRequest_incoming:
  "ReadRequest t = (Some req, t') \<Longrightarrow> length (incoming t') < length (incoming t)"
  by (auto simp: ReadRequest_def split: list.splits)

function handleTransport ::
  "'h RequestHandler \<Rightarrow> transport \<Rightarrow> 'h \<Rightarrow> (transport \<times> 'h) option" where
  "handleTransport H t h =
     (case ReadRequest t of
        (None, t1) \<Rightarrow> Some (t1, h)
      | (Some req, t1) \<Rightarrow>
          (case handleRequest H req t1 h of
             None \<Rightarrow> None
           | Some (False, t2, h2) \<Rightarrow> Some (t2, h2)
           | Some (True, t2, h2) \<Rightarrow> handleTransport H t2 h2))"
  by pat_completeness auto
termination
  by (relation "measure (\<lambda>(H, t, h). length (incoming t))")
     (auto dest!: handleRequest_incoming ReadRequest_incoming [OF sym])

declare handleTransport.simps [simp del]

section \<open>The server: configuration, listener and active connections\<close>

text \<open>
  \<open>ServerConfiguration\<close>: the listen URL, the idle timeout (a \<open>time.Duration\<close>, in
  nanoseconds) and the connection limit (a Go \<open>uint\<close>, taken at 64 bits; nothing below
  depends on the width).
\<close>

record ServerConfiguration =
  URL :: string
  Timeout :: int
  MaxClients :: uint

text \<open>
  Modelled from the spec: \<open>transportType\<close> and its constants are declared outside
  \<open>server.go\<close>. TCP is the only transport of the server ("serial-line transport
  variants" are out of scope); \<open>OTHER_TRANSPORT\<close> stands for every other value.
\<close>

datatype transportType = TCP_TRANSPORT | OTHER_TRANSPORT

text \<open>A \<open>net.Conn\<close> is known by its identity.\<close>

type_synonym conn = nat

text \<open>
  \<open>ModbusServer\<close>. The fields \<open>conf\<close>, \<open>started\<close>, \<open>tcpClients\<close> and \<open>transportType\<close>
  are the struct's. The mutex is modelled by taking each critical section as one step.
  The remaining fields are what the server does to its surroundings: \<open>listenerOpen\<close> is
  the state of the socket behind \<open>tcpListener\<close> (bound and not yet closed),
  \<open>closedSocks\<close> lists the connections on which \<open>Close()\<close> has been called, and
  \<open>served\<close> lists the connections handed to a \<open>handleTCPClient\<close> goroutine.
\<close>

record ModbusServer =
  conf :: ServerConfiguration
  started :: bool
  tcpClients :: "conn list"
  transportType :: transportType
  listenerOpen :: bool
  closedSocks :: "conn list"
  served :: "conn list"

definition NewServer :: "ServerConfiguration \<Rightarrow> error + ModbusServer" where
  "NewServer c =
     (if take 6 (URL c) = ''tcp://'' then
        Inr \<lparr>conf = c\<lparr>URL := drop 6 (URL c),
                       Timeout := (if Timeout c = 0 then 120 * 1000000000 else Timeout c),
                       MaxClients := (if MaxClients c = 0 then 10 else MaxClients c)\<rparr>,
             started = False,
             tcpClients = [],
             transportType = TCP_TRANSPORT,
             listenerOpen = False,
             closedSocks = [],
             served = []\<rparr>
      else Inl ErrConfigurationError)"

text \<open>
  \<open>Start\<close>. The result of \<open>net.Listen\<close> is a parameter: \<open>None\<close> when the bind succeeds.
\<close>

definition Start :: "ModbusServer \<Rightarrow> error option \<Rightarrow> ModbusServer \<times> error option" where
  "Start ms listenErr =
     (if started ms then (ms, None)
      else (case transportType ms of
              TCP_TRANSPORT \<Rightarrow>
                (case listenErr of
                   Some e \<Rightarrow> (ms, Some e)
                 | None \<Rightarrow> (ms\<lparr>listenerOpen := True, started := True\<rparr>, None))
            | _ \<Rightarrow> (ms, Some ErrConfigurationError)))"

text \<open>
  \<open>Stop\<close>. The result of \<open>ms.tcpListener.Close()\<close> is a parameter. The loop closes every
  socket of \<open>tcpClients\<close>; the slice itself is not assigned.
\<close>

definition Stop :: "ModbusServer \<Rightarrow> error option \<Rightarrow> ModbusServer \<times> error option" where
  "Stop ms closeErr =
     (if \<not> started ms then (ms, None)
      else
        let ms1 = ms\<lparr>started := False\<rparr> in
        if transportType ms1 = TCP_TRANSPORT
        then (ms1\<lparr>listenerOpen := False,
                  closedSocks := closedSocks ms1 @ tcpClients ms1\<rparr>, closeErr)
        else (ms1, None))"

text \<open>
  One turn of the loop of \<open>acceptTCPClients\<close> for a connection returned by \<open>Accept\<close>:
  the admission check under the lock, then either the worker goroutine or the close.
\<close>

definition acceptTCPClient :: "ModbusServer \<Rightarrow> conn \<Rightarrow> ModbusServer" where
  "acceptTCPClient ms sock =
     (if (of_nat (length (tcpClients ms)) :: uint) < MaxClients (conf ms)
      then ms\<lparr>tcpClients := tcpClients ms @ [sock], served := served ms @ [sock]\<rparr>
      else ms\<lparr>closedSocks := closedSocks ms @ [sock]\<rparr>)"

text \<open>
  The end of \<open>handleTCPClient\<close>, once \<open>handleTransport\<close> has returned: the loop over the
  indices that swap-removes the first entry equal to \<open>sock\<close>, then the close.
\<close>

function removeClient :: "conn \<Rightarrow> conn list \<Rightarrow> nat \<Rightarrow> conn list" where
  "removeClient sock cs i =
     (if i < length cs then
        (if cs ! i = sock then butlast (cs[i := cs ! (length cs - 1)])
         else removeClient sock cs (Suc i))
      else cs)"
  by pat_completeness auto
termination
  by (relation "measure (\<lambda>(sock, cs, i). length cs - i)") auto

declare removeClient.simps [simp del]

definition handleTCPClientDone :: "ModbusServer \<Rightarrow> conn \<Rightarrow> ModbusServer" where
  "handleTCPClientDone ms sock =
     ms\<lparr>tcpClients := removeClient sock (tcpClients ms) 0,
        closedSocks := closedSocks ms @ [sock]\<rparr>"

text \<open>
  The states the server can be in: it is built by \<open>NewServer\<close>, and then \<open>Start\<close>,
  \<open>Stop\<close>, admissions by the accept loop and deregistrations by the workers happen in any
  order, each as one step under the lock. A worker exists only for a connection that was
  handed to one.
\<close>

inductive reachable :: "ModbusServer \<Rightarrow> bool" where
  r_new: "NewServer c = Inr ms \<Longrightarrow> reachable ms"
| r_start: "reachable ms \<Longrightarrow> reachable (fst (Start ms listenErr))"
| r_stop: "reachable ms \<Longrightarrow> reachable (fst (Stop ms closeErr))"
| r_accept: "reachable ms \<Longrightarrow> reachable (acceptTCPClient ms sock)"
| r_done: "reachable ms \<Longrightarrow> sock \<in> set (served ms) \<Longrightarrow> reachable (handleTCPClientDone ms sock)"

section \<open>A handler for concrete runs\<close>

text \<open>
  A handler that answers every call with the same data and error, and counts the calls it
  receives in its state. The concrete runs below use it.
\<close>

definition fixedHandler :: "bool list \<Rightarrow> u16 list \<Rightarrow> error option \<Rightarrow> nat RequestHandler" where
  "fixedHandler bs rs e =
     \<lparr>HandleCoils = (\<lambda>uid addr quantity isWrite args n. ((bs, e), Suc n)),
      HandleDiscreteInputs = (\<lambda>uid addr quantity n. ((bs, e), Suc n)),
      HandleHoldingRegisters = (\<lambda>uid addr quantity isWrite args n. ((rs, e), Suc n)),
      HandleInputRegisters = (\<lambda>uid addr quantity n. ((rs, e), Suc n))\<rparr>"

section \<open>No access past the end of the payload\<close>

lemmas go_access_defs = indexGo_def sliceGo_def sliceFromGo_def failWith_def

lemma caseReadBits_total: "caseReadBits H req h \<noteq> None"
  by (auto simp: caseReadBits_def go_access_defs Let_def split: prod.splits if_splits)

lemma caseWriteSingleCoil_total: "caseWriteSingleCoil H req h \<noteq> None"
  by (auto simp: caseWriteSingleCoil_def go_access_defs Let_def split: prod.splits if_splits)

lemma caseWriteMultipleCoils_total: "caseWriteMultipleCoils H req h \<noteq> None"
  by (auto simp: caseWriteMultipleCoils_def go_access_defs Let_def split: prod.splits if_splits)

lemma caseReadRegisters_total: "caseReadRegisters H req h \<noteq> None"
  by (auto simp: caseReadRegisters_def go_access_defs Let_def split: prod.splits if_splits)

lemma caseWriteSingleRegister_total: "caseWriteSingleRegister H req h \<noteq> None"
  by (auto simp: caseWriteSingleRegister_def go_access_defs Let_def split: prod.splits if_splits)

lemma caseWriteMultipleRegisters_total: "caseWriteMultipleRegisters H req h \<noteq> None"
  by (auto simp: caseWriteMultipleRegisters_def go_access_defs Let_def
      split: prod.splits if_splits)

lemma dispatch_total: "dispatch H req h \<noteq> None"
  unfolding dispatch_def Let_def
  by (simp del: not_None_eq add: caseReadBits_total caseWriteSingleCoil_total
      caseWriteMultipleCoils_total caseReadRegisters_total caseWriteSingleRegister_total
      caseWriteMultipleRegisters_total)

lemma handleRequest_total: "handleRequest H req t h \<noteq> None"
  using dispatch_total [of H req h]
  by (auto simp: handleRequest_def Let_def split: option.splits prod.splits if_splits)

lemma handleTransport_total: "handleTransport H t h \<noteq> None"
proof (induction H t h rule: handleTransport.induct)
  case (1 H t h)
  show ?case
    using 1
    by (subst handleTransport.simps)
       (auto simp: handleRequest_total simp del: not_None_eq
             split: prod.splits option.splits bool.splits)
qed

text \<open>
  Claim C9. Whatever the payload of a request (empty, short or long), the dispatcher
  never reads past its end: the switch, one turn of the loop and the whole worker loop
  all finish without the out-of-range failure, for every handler, every request and every
  sequence of requests. Each access to \<open>payload[0:2]\<close>, \<open>payload[2:4]\<close>, \<open>payload[2]\<close>,
  \<open>payload[3]\<close>, \<open>payload[4]\<close> and \<open>payload[5:]\<close> comes after the length check of its
  case.
\<close>

theorem C9_dispatch_in_bounds:
  "dispatch H req h \<noteq> None \<and> handleRequest H req t h \<noteq> None \<and> handleTransport H t h \<noteq> None"
  by (intro conjI dispatch_total handleRequest_total handleTransport_total)

theorem C9_dispatch_in_bounds_witness:
  "dispatch (fixedHandler [] [] None)
      \<lparr>unitId = 1, functionCode = FC_WRITE_MULTIPLE_COILS, payload = [0, 1, 0]\<rparr> (0::nat) \<noteq> None
   \<and> handleRequest (fixedHandler [] [] None)
      \<lparr>unitId = 1, functionCode = FC_WRITE_MULTIPLE_COILS, payload = [0, 1, 0]\<rparr>
      \<lparr>incoming = [], written = [], closed = False\<rparr> (0::nat) \<noteq> None
   \<and> handleTransport (fixedHandler [] [] None)
      \<lparr>incoming = [\<lparr>unitId = 1, functionCode = FC_READ_COILS, payload = []\<rparr>],
       written = [], closed = False\<rparr> (0::nat) \<noteq> None"
  using C9_dispatch_in_bounds
    [of "fixedHandler [] [] None"
        "\<lparr>unitId = 1, functionCode = FC_WRITE_MULTIPLE_COILS, payload = [0, 1, 0]\<rparr>" "0::nat"
        "\<lparr>incoming = [], written = [], closed = False\<rparr>"]
    C9_dispatch_in_bounds
    [of "fixedHandler [] [] None"
        "\<lparr>unitId = 1, functionCode = FC_WRITE_MULTIPLE_COILS, payload = [0, 1, 0]\<rparr>" "0::nat"
        "\<lparr>incoming = [\<lparr>unitId = 1, functionCode = FC_READ_COILS, payload = []\<rparr>],
          written = [], closed = False\<rparr>"]
  by blast

section \<open>Arithmetic of the address check, and the loop one request at a time\<close>

lemma unat_u16_less: "unat (w :: u16) < 65536"
  using unsigned_less [of w, where 'a = nat] by simp

lemma unat_ucast_16_32: "unat (ucast (w :: u16) :: u32) = unat w"
  using unat_u16_less [of w] by (simp add: unsigned_ucast_eq take_bit_eq_mod)

lemma addr_check_nat:
  fixes addr quantity :: u16
  assumes "quantity \<noteq> 0"
  shows "((ucast addr :: u32) + ucast quantity - 1 > 0xffff) = (unat addr + unat quantity > 65536)"
proof -
  have a: "unat addr < 65536" by (rule unat_u16_less)
  have q: "unat quantity < 65536" by (rule unat_u16_less)
  have q0: "0 < unat quantity" using assms by (simp add: unat_gt_0)
  have s: "unat ((ucast addr :: u32) + ucast quantity) = unat addr + unat quantity"
    using a q unat_add_lem [of "ucast addr :: u32" "ucast quantity"]
    by (simp add: unat_ucast_16_32)
  have nz: "(ucast addr :: u32) + ucast quantity \<noteq> 0"
    using s q0 by (metis add_is_0 less_numeral_extra(3) unat_0)
  have "unat ((ucast addr :: u32) + ucast quantity - 1) = unat addr + unat quantity - 1"
    using s nz by (simp add: unat_minus_one)
  then show ?thesis
    using q0 by (auto simp add: word_less_nat_alt) 
qed

lemma handleTransport_Cons:
  assumes "incoming t = req # rest"
  shows "handleTransport H t h =
     (case handleRequest H req (t\<lparr>incoming := rest\<rparr>) h of
        None \<Rightarrow> None
      | Some (False, t2, h2) \<Rightarrow> Some (t2, h2)
      | Some (True, t2, h2) \<Rightarrow> handleTransport H t2 h2)"
  using assms by (subst handleTransport.simps) (simp add: ReadRequest_def)

lemma handleTransport_Nil:
  assumes "incoming t = []"
  shows "handleTransport H t h = Some (t, h)"
  using assms by (subst handleTransport.simps) (simp add: ReadRequest_def)

lemma slice_addr: "4 \<le> length p \<Longrightarrow> sliceGo p 0 2 = Some (take 2 p)"
  by (simp add: sliceGo_def)

lemma slice_quantity: "4 \<le> length p \<Longrightarrow> sliceGo p 2 4 = Some (take 2 (drop 2 p))"
  by (simp add: sliceGo_def)

text \<open>The outcome of one loop turn, from the outcome of the switch.\<close>

lemma handleRequest_protocol_error:
  "dispatch H req h = Some (None, Some ErrProtocolError, h') \<Longrightarrow>
   handleRequest H req t h = Some (False, Close t, h')"
  by (simp add: handleRequest_def)

lemma handleRequest_error:
  "dispatch H req h = Some (None, Some e, h') \<Longrightarrow> e \<noteq> ErrProtocolError \<Longrightarrow>
   handleRequest H req t h = Some (True, WriteResponse t (errorPdu req e), h')"
  by (simp add: handleRequest_def)

lemma handleRequest_response:
  "dispatch H req h = Some (Some r, None, h') \<Longrightarrow>
   handleRequest H req t h = Some (True, WriteResponse t r, h')"
  by (simp add: handleRequest_def)

lemma handleTransport_closes:
  "incoming t = req # rest \<Longrightarrow> handleRequest H req (t\<lparr>incoming := rest\<rparr>) h = Some (False, t', h')
   \<Longrightarrow> handleTransport H t h = Some (t', h')"
  by (simp add: handleTransport_Cons)

lemma handleTransport_continues:
  "incoming t = req # rest \<Longrightarrow> handleRequest H req (t\<lparr>incoming := rest\<rparr>) h = Some (True, t', h')
   \<Longrightarrow> handleTransport H t h = handleTransport H t' h'"
  by (simp add: handleTransport_Cons)

lemma dispatch_cases:
  "functionCode req = FC_READ_COILS \<Longrightarrow> dispatch H req h = caseReadBits H req h"
  "functionCode req = FC_READ_DISCRETE_INPUTS \<Longrightarrow> dispatch H req h = caseReadBits H req h"
  "functionCode req = FC_WRITE_SINGLE_COIL \<Longrightarrow> dispatch H req h = caseWriteSingleCoil H req h"
  "functionCode req = FC_WRITE_MULTIPLE_COILS \<Longrightarrow>
     dispatch H req h = caseWriteMultipleCoils H req h"
  "functionCode req = FC_READ_HOLDING_REGISTERS \<Longrightarrow> dispatch H req h = caseReadRegisters H req h"
  "functionCode req = FC_READ_INPUT_REGISTERS \<Longrightarrow> dispatch H req h = caseReadRegisters H req h"
  "functionCode req = FC_WRITE_SINGLE_REGISTER \<Longrightarrow>
     dispatch H req h = caseWriteSingleRegister H req h"
  "functionCode req = FC_WRITE_MULTIPLE_REGISTERS \<Longrightarrow>
     dispatch H req h = caseWriteMultipleRegisters H req h"
  by (simp_all add: dispatch_def FC_defs)

lemma caseReadBits_illegal_address:
  assumes "length (payload req) = 4" "reqQuantity req \<noteq> 0" "reqQuantity req \<le> 2000"
    "unat (reqAddr req) + unat (reqQuantity req) > 65536"
  shows "caseReadBits H req h = Some (None, Some ErrIllegalDataAddress, h)"
  using assms addr_check_nat [of "reqQuantity req" "reqAddr req"]
  by (simp add: caseReadBits_def slice_addr slice_quantity Let_def failWith_def
      reqAddr_def reqQuantity_def not_less [symmetric])

lemma caseReadRegisters_illegal_address:
  assumes "length (payload req) = 4" "reqQuantity req \<noteq> 0" "reqQuantity req \<le> 0x7d"
    "unat (reqAddr req) + unat (reqQuantity req) > 65536"
  shows "caseReadRegisters H req h = Some (None, Some ErrIllegalDataAddress, h)"
  using assms addr_check_nat [of "reqQuantity req" "reqAddr req"]
  by (simp add: caseReadRegisters_def slice_addr slice_quantity Let_def failWith_def
      reqAddr_def reqQuantity_def not_less [symmetric])

lemma caseWriteMultipleCoils_illegal_address:
  assumes "6 \<le> length (payload req)" "reqQuantity req \<noteq> 0" "reqQuantity req \<le> 0x7b0"
    "unat (reqAddr req) + unat (reqQuantity req) > 65536"
  shows "caseWriteMultipleCoils H req h = Some (None, Some ErrIllegalDataAddress, h)"
  using assms addr_check_nat [of "reqQuantity req" "reqAddr req"]
  by (simp add: caseWriteMultipleCoils_def slice_addr slice_quantity Let_def failWith_def
      reqAddr_def reqQuantity_def not_less [symmetric])

lemma caseWriteMultipleRegisters_illegal_address:
  assumes "6 \<le> length (payload req)" "reqQuantity req \<noteq> 0" "reqQuantity req \<le> 0x7b"
    "unat (reqAddr req) + unat (reqQuantity req) > 65536"
  shows "caseWriteMultipleRegisters H req h = Some (None, Some ErrIllegalDataAddress, h)"
  using assms addr_check_nat [of "reqQuantity req" "reqAddr req"]
  by (simp add: caseWriteMultipleRegisters_def slice_addr slice_quantity Let_def failWith_def
      reqAddr_def reqQuantity_def not_less [symmetric])

section \<open>Address range errors\<close>

lemma dispatch_illegal_address:
  assumes "(functionCode req \<in> {FC_READ_COILS, FC_READ_DISCRETE_INPUTS}
              \<and> length (payload req) = 4 \<and> reqQuantity req \<le> 2000)
         \<or> (functionCode req \<in> {FC_READ_HOLDING_REGISTERS, FC_READ_INPUT_REGISTERS}
              \<and> length (payload req) = 4 \<and> reqQuantity req \<le> 0x7d)
         \<or> (functionCode req = FC_WRITE_MULTIPLE_COILS
              \<and> 6 \<le> length (payload req) \<and> reqQuantity req \<le> 0x7b0)
         \<or> (functionCode req = FC_WRITE_MULTIPLE_REGISTERS
              \<and> 6 \<le> length (payload req) \<and> reqQuantity req \<le> 0x7b)"
    and "reqQuantity req \<noteq> 0"
    and "unat (reqAddr req) + unat (reqQuantity req) - 1 > 0xFFFF"
  shows "dispatch H req h = Some (None, Some ErrIllegalDataAddress, h)"
proof -
  have ov: "unat (reqAddr req) + unat (reqQuantity req) > 65536"
    using assms(3) by simp
  from assms(1) show ?thesis
    using assms(2) ov
    by (elim disjE conjE)
       (auto simp: dispatch_cases caseReadBits_illegal_address caseReadRegisters_illegal_address
          caseWriteMultipleCoils_illegal_address caseWriteMultipleRegisters_illegal_address)
qed

text \<open>
  Claim C5. A read request (coils, discrete inputs, holding registers, input registers) or a
  write-multiple request (coils, registers) whose payload is long enough to decode, whose
  quantity lies in the range of its function code and whose last address
  \<open>addr + quantity - 1\<close> exceeds 0xFFFF is answered with an error response: function code
  \<open>0x80 | functionCode\<close>, one payload byte, the illegal-data-address exception code. The
  worker loop then goes on with the remaining requests on the same transport, which is not
  closed, and the handler is not called.
\<close>

theorem C5_illegal_data_address:
  assumes "(functionCode req \<in> {FC_READ_COILS, FC_READ_DISCRETE_INPUTS}
              \<and> length (payload req) = 4 \<and> reqQuantity req \<le> 2000)
         \<or> (functionCode req \<in> {FC_READ_HOLDING_REGISTERS, FC_READ_INPUT_REGISTERS}
              \<and> length (payload req) = 4 \<and> reqQuantity req \<le> 0x7d)
         \<or> (functionCode req = FC_WRITE_MULTIPLE_COILS
              \<and> 6 \<le> length (payload req) \<and> reqQuantity req \<le> 0x7b0)
         \<or> (functionCode req = FC_WRITE_MULTIPLE_REGISTERS
              \<and> 6 \<le> length (payload req) \<and> reqQuantity req \<le> 0x7b)"
    and "reqQuantity req \<noteq> 0"
    and "unat (reqAddr req) + unat (reqQuantity req) - 1 > 0xFFFF"
    and "incoming t = req # rest"
  shows "handleTransport H t h =
           handleTransport H
             (t\<lparr>incoming := rest,
                written := written t @
                  [\<lparr>unitId = unitId req, functionCode = 0x80 OR functionCode req,
                    payload = [EX_ILLEGAL_DATA_ADDRESS]\<rparr>]\<rparr>) h"
proof -
  have "dispatch H req h = Some (None, Some ErrIllegalDataAddress, h)"
    using assms(1-3) by (rule dispatch_illegal_address)
  then have "handleRequest H req (t\<lparr>incoming := rest\<rparr>) h =
      Some (True, WriteResponse (t\<lparr>incoming := rest\<rparr>) (errorPdu req ErrIllegalDataAddress), h)"
    by (simp add: handleRequest_error)
  then show ?thesis
    using assms(4) by (simp add: handleTransport_continues WriteResponse_def errorPdu_def)
qed

theorem C5_illegal_data_address_witness:
  "handleTransport (fixedHandler [] [] None)
     \<lparr>incoming = [\<lparr>unitId = 1, functionCode = FC_WRITE_MULTIPLE_REGISTERS,
                   payload = [0xff, 0xff, 0, 2, 4, 0, 1, 0, 2]\<rparr>,
                  \<lparr>unitId = 1, functionCode = FC_READ_COILS, payload = [0xff, 0xfe, 0, 3]\<rparr>],
      written = [], closed = False\<rparr> (0::nat)
   = Some (\<lparr>incoming = [],
            written = [\<lparr>unitId = 1, functionCode = 0x90, payload = [EX_ILLEGAL_DATA_ADDRESS]\<rparr>,
                       \<lparr>unitId = 1, functionCode = 0x81, payload = [EX_ILLEGAL_DATA_ADDRESS]\<rparr>],
            closed = False\<rparr>, 0)"
proof -
  let ?H = "fixedHandler [] [] None"
  let ?r1 = "\<lparr>unitId = 1, functionCode = FC_WRITE_MULTIPLE_REGISTERS,
                   payload = [0xff, 0xff, 0, 2, 4, 0, 1, 0, 2]\<rparr>"
  let ?r2 = "\<lparr>unitId = 1, functionCode = FC_READ_COILS, payload = [0xff, 0xfe, 0, 3]\<rparr>"
  let ?t0 = "\<lparr>incoming = [?r1, ?r2], written = [], closed = False\<rparr>"
  let ?e1 = "\<lparr>unitId = 1, functionCode = 0x90, payload = [EX_ILLEGAL_DATA_ADDRESS]\<rparr>"
  let ?t1 = "\<lparr>incoming = [?r2], written = [?e1], closed = False\<rparr>"
  have 1: "handleTransport ?H ?t0 (0::nat) = handleTransport ?H ?t1 0"
    using C5_illegal_data_address [of ?r1 ?t0 "[?r2]" ?H 0]
    by (simp add: reqAddr_def reqQuantity_def FC_defs)
  have 2: "handleTransport ?H ?t1 (0::nat) =
      handleTransport ?H \<lparr>incoming = [], written = [?e1,
         \<lparr>unitId = 1, functionCode = 0x81, payload = [EX_ILLEGAL_DATA_ADDRESS]\<rparr>],
         closed = False\<rparr> 0"
    using C5_illegal_data_address [of ?r2 ?t1 "[]" ?H 0]
    by (simp add: reqAddr_def reqQuantity_def FC_defs)
  show ?thesis
    unfolding 1 2 by (simp add: handleTransport_Nil)
qed

section \<open>Protocol errors close the link\<close>

lemma caseReadBits_bad_quantity:
  assumes "length (payload req) = 4" "reqQuantity req = 0 \<or> reqQuantity req > 2000"
  shows "caseReadBits H req h = Some (None, Some ErrProtocolError, h)"
  using assms
  by (auto simp: caseReadBits_def slice_addr slice_quantity Let_def failWith_def
      reqQuantity_def)

text \<open>
  Claim C4. A Read Coils request whose decoded quantity is 0 or greater than 2000 is a
  protocol error: the worker calls \<open>Close\<close> on the transport and leaves the loop (the
  requests behind it stay unread), nothing is handed to \<open>WriteResponse\<close> for it, neither
  a response nor an exception response, and the handler is not called.
\<close>

theorem C4_read_coils_bad_quantity:
  assumes "functionCode req = FC_READ_COILS"
    and "length (payload req) = 4"
    and "reqQuantity req = 0 \<or> reqQuantity req > 2000"
    and "incoming t = req # rest"
  shows "handleTransport H t h = Some (t\<lparr>incoming := rest, closed := True\<rparr>, h)"
proof -
  have "dispatch H req h = Some (None, Some ErrProtocolError, h)"
    using assms(1-3) by (simp add: dispatch_cases caseReadBits_bad_quantity)
  then have "handleRequest H req (t\<lparr>incoming := rest\<rparr>) h = Some (False, Close (t\<lparr>incoming := rest\<rparr>), h)"
    by (rule handleRequest_protocol_error)
  then show ?thesis
    using assms(4) by (simp add: handleTransport_closes Close_def)
qed

theorem C4_read_coils_bad_quantity_witness:
  "handleTransport (fixedHandler [True] [] None)
     \<lparr>incoming = [\<lparr>unitId = 1, functionCode = FC_READ_COILS, payload = [0, 0, 0x07, 0xd1]\<rparr>,
                  \<lparr>unitId = 1, functionCode = FC_READ_COILS, payload = [0, 0, 0, 1]\<rparr>],
      written = [], closed = False\<rparr> (0::nat)
   = Some (\<lparr>incoming = [\<lparr>unitId = 1, functionCode = FC_READ_COILS, payload = [0, 0, 0, 1]\<rparr>],
            written = [], closed = True\<rparr>, 0)"
  using C4_read_coils_bad_quantity
    [of "\<lparr>unitId = 1, functionCode = FC_READ_COILS, payload = [0, 0, 0x07, 0xd1]\<rparr>"
        "\<lparr>incoming = [\<lparr>unitId = 1, functionCode = FC_READ_COILS, payload = [0, 0, 0x07, 0xd1]\<rparr>,
                  \<lparr>unitId = 1, functionCode = FC_READ_COILS, payload = [0, 0, 0, 1]\<rparr>],
          written = [], closed = False\<rparr>"
        "[\<lparr>unitId = 1, functionCode = FC_READ_COILS, payload = [0, 0, 0, 1]\<rparr>]"
        "fixedHandler [True] [] None" "0::nat"]
  by (simp add: reqQuantity_def)

lemma caseWriteSingleCoil_bad_value:
  assumes "payload req = [a1, a0, v, z]" "(v \<noteq> 0x00 \<and> v \<noteq> 0xff) \<or> z \<noteq> 0x00"
  shows "caseWriteSingleCoil H req h = Some (None, Some ErrProtocolError, h)"
  using assms
  by (auto simp: caseWriteSingleCoil_def sliceGo_def indexGo_def Let_def failWith_def)

text \<open>
  Claim C6. A Write Single Coil request with a 4-byte payload whose value byte
  \<open>payload[2]\<close> is neither 0x00 nor 0xFF, or whose next byte \<open>payload[3]\<close> is not 0x00,
  is a protocol error: the transport is closed, the loop is left, no response is written,
  and the handler's state is the one before the request (the handler is not invoked).
\<close>

theorem C6_write_single_coil_bad_value:
  assumes "functionCode req = FC_WRITE_SINGLE_COIL"
    and "payload req = [a1, a0, v, z]"
    and "(v \<noteq> 0x00 \<and> v \<noteq> 0xff) \<or> z \<noteq> 0x00"
    and "incoming t = req # rest"
  shows "handleTransport H t h = Some (t\<lparr>incoming := rest, closed := True\<rparr>, h)"
proof -
  have "dispatch H req h = Some (None, Some ErrProtocolError, h)"
    using assms(1-3) by (simp add: dispatch_cases caseWriteSingleCoil_bad_value)
  then have "handleRequest H req (t\<lparr>incoming := rest\<rparr>) h = Some (False, Close (t\<lparr>incoming := rest\<rparr>), h)"
    by (rule handleRequest_protocol_error)
  then show ?thesis
    using assms(4) by (simp add: handleTransport_closes Close_def)
qed

theorem C6_write_single_coil_bad_value_witness:
  "handleTransport (fixedHandler [] [] None)
     \<lparr>incoming = [\<lparr>unitId = 1, functionCode = FC_WRITE_SINGLE_COIL, payload = [0, 7, 0x01, 0]\<rparr>],
      written = [], closed = False\<rparr> (0::nat)
   = Some (\<lparr>incoming = [], written = [], closed = True\<rparr>, 0)"
  using C6_write_single_coil_bad_value
    [of "\<lparr>unitId = 1, functionCode = FC_WRITE_SINGLE_COIL, payload = [0, 7, 0x01, 0]\<rparr>"
        0 7 1 0
        "\<lparr>incoming = [\<lparr>unitId = 1, functionCode = FC_WRITE_SINGLE_COIL,
                        payload = [0, 7, 0x01, 0]\<rparr>],
          written = [], closed = False\<rparr>"
        "[]" "fixedHandler [] [] None" "0::nat"]
  by simp

section \<open>Read requests and the handler's answer\<close>

text \<open>What a read case does once the handler has answered.\<close>

lemma read_request_valid:
  assumes "length (payload req) = 4" "reqQuantity req \<noteq> 0"
    "unat (reqAddr req) + unat (reqQuantity req) - 1 \<le> 0xFFFF"
  shows "\<not> ((ucast (reqAddr req) :: u32) + ucast (reqQuantity req) - 1 > 0xffff)"
  using assms addr_check_nat [of "reqQuantity req" "reqAddr req"] by simp

lemma reqQuantity_drop:
  "length (payload req) = 4 \<Longrightarrow> bytesToUint16 BIG_ENDIAN (drop 2 (payload req)) = reqQuantity req"
  by (simp add: reqQuantity_def)

lemma caseReadBits_handler:
  assumes "length (payload req) = 4" "reqQuantity req \<noteq> 0" "reqQuantity req \<le> 2000"
    "unat (reqAddr req) + unat (reqQuantity req) - 1 \<le> 0xFFFF"
    "invokeReadBits H req (reqAddr req) (reqQuantity req) h = ((coils, err), h')"
  shows "caseReadBits H req h =
     (if err = None \<and> length coils \<noteq> unat (reqQuantity req)
        then Some (None, Some ErrServerDeviceFailure, h')
      else if err \<noteq> None then Some (None, err, h')
      else Some (Some \<lparr>unitId = unitId req, functionCode = functionCode req,
                       payload = (of_nat (length coils div 8) +
                                   (if length coils mod 8 \<noteq> 0 then 1 else 0))
                                 # encodeBools coils\<rparr>,
                 None, h'))"
  using assms(1,2,3,5) read_request_valid [OF assms(1,2,4)]
  by (simp add: caseReadBits_def slice_addr slice_quantity Let_def failWith_def
      reqAddr_def [symmetric] reqQuantity_drop not_less [symmetric])

lemma caseReadRegisters_handler:
  assumes "length (payload req) = 4" "reqQuantity req \<noteq> 0" "reqQuantity req \<le> 0x7d"
    "unat (reqAddr req) + unat (reqQuantity req) - 1 \<le> 0xFFFF"
    "invokeReadRegisters H req (reqAddr req) (reqQuantity req) h = ((regs, err), h')"
  shows "caseReadRegisters H req h =
     (if err = None \<and> length regs \<noteq> unat (reqQuantity req)
        then Some (None, Some ErrServerDeviceFailure, h')
      else if err \<noteq> None then Some (None, err, h')
      else Some (Some \<lparr>unitId = unitId req, functionCode = functionCode req,
                       payload = of_nat (length regs * 2) # uint16sToBytes BIG_ENDIAN regs\<rparr>,
                 None, h'))"
  using assms(1,2,3,5) read_request_valid [OF assms(1,2,4)]
  by (simp add: caseReadRegisters_def slice_addr slice_quantity Let_def failWith_def
      reqAddr_def [symmetric] reqQuantity_drop not_less [symmetric])


lemma dispatch_read_wrong_count:
  assumes "(functionCode req \<in> {FC_READ_COILS, FC_READ_DISCRETE_INPUTS}
              \<and> reqQuantity req \<le> 2000
              \<and> invokeReadBits H req (reqAddr req) (reqQuantity req) h = ((bs, None), h')
              \<and> length bs \<noteq> unat (reqQuantity req))
         \<or> (functionCode req \<in> {FC_READ_HOLDING_REGISTERS, FC_READ_INPUT_REGISTERS}
              \<and> reqQuantity req \<le> 0x7d
              \<and> invokeReadRegisters H req (reqAddr req) (reqQuantity req) h = ((rs, None), h')
              \<and> length rs \<noteq> unat (reqQuantity req))"
    and "length (payload req) = 4"
    and "reqQuantity req \<noteq> 0"
    and "unat (reqAddr req) + unat (reqQuantity req) - 1 \<le> 0xFFFF"
  shows "dispatch H req h = Some (None, Some ErrServerDeviceFailure, h')"
  using assms(1)
proof (elim disjE conjE)
  assume "functionCode req \<in> {FC_READ_COILS, FC_READ_DISCRETE_INPUTS}"
    and "reqQuantity req \<le> 2000"
    and "invokeReadBits H req (reqAddr req) (reqQuantity req) h = ((bs, None), h')"
    and "length bs \<noteq> unat (reqQuantity req)"
  then show ?thesis
    using caseReadBits_handler [OF assms(2,3) _ assms(4), of H h bs None h']
    by (auto simp: dispatch_cases)
next
  assume "functionCode req \<in> {FC_READ_HOLDING_REGISTERS, FC_READ_INPUT_REGISTERS}"
    and "reqQuantity req \<le> 0x7d"
    and "invokeReadRegisters H req (reqAddr req) (reqQuantity req) h = ((rs, None), h')"
    and "length rs \<noteq> unat (reqQuantity req)"
  then show ?thesis
    using caseReadRegisters_handler [OF assms(2,3) _ assms(4), of H h rs None h']
    by (auto simp: dispatch_cases)
qed

text \<open>
  Claim C7. For a valid read request of any of the four kinds (coils, discrete inputs,
  holding registers, input registers), when the handler returns a nil error and a result
  whose length is not the requested quantity, the server writes an error response with
  function code \<open>0x80 | functionCode\<close> and the server-device-failure exception code in
  place of the handler's data, and the loop goes on with the next request: the transport
  stays open.
\<close>

theorem C7_wrong_result_count:
  assumes "(functionCode req \<in> {FC_READ_COILS, FC_READ_DISCRETE_INPUTS}
              \<and> reqQuantity req \<le> 2000
              \<and> invokeReadBits H req (reqAddr req) (reqQuantity req) h = ((bs, None), h')
              \<and> length bs \<noteq> unat (reqQuantity req))
         \<or> (functionCode req \<in> {FC_READ_HOLDING_REGISTERS, FC_READ_INPUT_REGISTERS}
              \<and> reqQuantity req \<le> 0x7d
              \<and> invokeReadRegisters H req (reqAddr req) (reqQuantity req) h = ((rs, None), h')
              \<and> length rs \<noteq> unat (reqQuantity req))"
    and "length (payload req) = 4"
    and "reqQuantity req \<noteq> 0"
    and "unat (reqAddr req) + unat (reqQuantity req) - 1 \<le> 0xFFFF"
    and "incoming t = req # rest"
  shows "handleTransport H t h =
           handleTransport H
             (t\<lparr>incoming := rest,
                written := written t @
                  [\<lparr>unitId = unitId req, functionCode = 0x80 OR functionCode req,
                    payload = [EX_SERVER_DEVICE_FAILURE]\<rparr>]\<rparr>) h'"
proof -
  have "dispatch H req h = Some (None, Some ErrServerDeviceFailure, h')"
    using assms(1-4) by (rule dispatch_read_wrong_count)
  then have "handleRequest H req (t\<lparr>incoming := rest\<rparr>) h =
      Some (True, WriteResponse (t\<lparr>incoming := rest\<rparr>) (errorPdu req ErrServerDeviceFailure), h')"
    by (simp add: handleRequest_error)
  then show ?thesis
    using assms(5) by (simp add: handleTransport_continues WriteResponse_def errorPdu_def)
qed

theorem C7_wrong_result_count_witness:
  "handleTransport (fixedHandler [True, False] [7] None)
     \<lparr>incoming = [\<lparr>unitId = 1, functionCode = FC_READ_DISCRETE_INPUTS, payload = [0, 0, 0, 3]\<rparr>,
                  \<lparr>unitId = 1, functionCode = FC_READ_HOLDING_REGISTERS, payload = [0, 0, 0, 2]\<rparr>],
      written = [], closed = False\<rparr> (0::nat)
   = Some (\<lparr>incoming = [],
            written = [\<lparr>unitId = 1, functionCode = 0x82, payload = [EX_SERVER_DEVICE_FAILURE]\<rparr>,
                       \<lparr>unitId = 1, functionCode = 0x83, payload = [EX_SERVER_DEVICE_FAILURE]\<rparr>],
            closed = False\<rparr>, 2)"
proof -
  let ?H = "fixedHandler [True, False] [7] None"
  let ?r1 = "\<lparr>unitId = 1, functionCode = FC_READ_DISCRETE_INPUTS, payload = [0, 0, 0, 3]\<rparr>"
  let ?r2 = "\<lparr>unitId = 1, functionCode = FC_READ_HOLDING_REGISTERS, payload = [0, 0, 0, 2]\<rparr>"
  let ?t0 = "\<lparr>incoming = [?r1, ?r2], written = [], closed = False\<rparr>"
  let ?e1 = "\<lparr>unitId = 1, functionCode = 0x82, payload = [EX_SERVER_DEVICE_FAILURE]\<rparr>"
  let ?e2 = "\<lparr>unitId = 1, functionCode = 0x83, payload = [EX_SERVER_DEVICE_FAILURE]\<rparr>"
  let ?t1 = "\<lparr>incoming = [?r2], written = [?e1], closed = False\<rparr>"
  have 1: "handleTransport ?H ?t0 (0::nat) = handleTransport ?H ?t1 1"
    using C7_wrong_result_count [of ?r1 ?H 0 "[True, False]" 1 "[]" ?t0 "[?r2]"]
    by (simp add: reqAddr_def reqQuantity_def FC_defs invokeReadBits_def fixedHandler_def)
  have 2: "handleTransport ?H ?t1 (1::nat) =
      handleTransport ?H \<lparr>incoming = [], written = [?e1, ?e2], closed = False\<rparr> 2"
    using C7_wrong_result_count [of ?r2 ?H 1 "[]" 2 "[7]" ?t1 "[]"]
    by (simp add: reqAddr_def reqQuantity_def FC_defs invokeReadRegisters_def fixedHandler_def)
  show ?thesis
    unfolding 1 2 by (simp add: handleTransport_Nil)
qed





section \<open>Coils: byte count and packed bits\<close>

lemma length_encodeBools: "length (encodeBools bs) = (length bs + 7) div 8"
  by (simp add: encodeBools_def)

lemma byte_index_less:
  assumes "i < n"
  shows "i div 8 < (n + 7) div (8::nat)"
proof -
  from assms have "(i + 8) div 8 \<le> (n + 7) div 8" by (intro div_le_mono) simp
  then show ?thesis by simp
qed

lemma packed_bit_in_byte:
  assumes "i < length bs"
  shows "i mod 8 < length (take 8 (drop (8 * (i div 8)) bs))"
proof -
  have "8 * (i div 8) + i mod 8 = i" by simp
  then have "i mod 8 < length bs - 8 * (i div 8)" using assms by linarith
  then show ?thesis by simp
qed

lemma bit_encodeBools:
  assumes "i < length bs"
  shows "bit (encodeBools bs ! (i div 8)) (i mod 8) = bs ! i"
proof -
  have j: "i div 8 < (length bs + 7) div 8"
    using assms by (rule byte_index_less)
  have "encodeBools bs ! (i div 8) =
      (horner_sum of_bool 2 (take 8 (drop (8 * (i div 8)) bs)) :: u8)"
    using j by (simp add: encodeBools_def)
  moreover have "i mod 8 < length (take 8 (drop (8 * (i div 8)) bs))"
    using assms by (rule packed_bit_in_byte)
  moreover have "take 8 (drop (8 * (i div 8)) bs) ! (i mod 8) = bs ! i"
    using assms by simp
  ultimately show ?thesis
    by (simp add: bit_horner_sum_bit_word_iff)
qed

lemma decodeBools_encodeBools:
  assumes "length bs = unat quantity"
  shows "decodeBools quantity (encodeBools bs) = bs"
  using assms by (auto simp: decodeBools_def bit_encodeBools intro!: nth_equalityI)

lemma small_ceil: "r < 8 \<Longrightarrow> (r + 7) div 8 = (if r \<noteq> 0 then 1 else (0::nat))"
  by (auto intro!: div_nat_eqI)

lemma byte_count_ceil: "n div 8 + (if n mod 8 \<noteq> 0 then 1 else 0) = (n + 7) div (8::nat)"
proof -
  have "(n + 7) div 8 = (n div 8 * 8 + (n mod 8 + 7)) div 8"
    by (simp add: add.assoc [symmetric])
  also have "\<dots> = n div 8 + (n mod 8 + 7) div 8"
    by (rule div_mult_self3) simp
  also have "(n mod 8 + 7) div 8 = (if n mod 8 \<noteq> 0 then 1 else 0)"
    by (rule small_ceil) simp
  finally show ?thesis by simp
qed

lemma byte_count_word:
  "(of_nat (n div 8) + (if n mod 8 \<noteq> 0 then 1 else 0) :: u8) = of_nat ((n + 7) div 8)"
proof -
  have "(of_nat (n div 8) + (if n mod 8 \<noteq> 0 then 1 else 0) :: u8)
      = of_nat (n div 8 + (if n mod 8 \<noteq> 0 then 1 else 0))"
    by simp
  then show ?thesis by (simp only: byte_count_ceil)
qed

lemma byte_count_fits:
  assumes "n \<le> 2000"
  shows "unat (of_nat ((n + 7) div 8) :: u8) = (n + 7) div 8"
proof -
  from assms have "(n + 7) div 8 \<le> 2007 div 8" by (intro div_le_mono) simp
  then have "(n + 7) div 8 < 256" by simp
  then show ?thesis by (simp add: unat_of_nat)
qed

lemma unat_le_2000: "(q :: u16) \<le> 2000 \<Longrightarrow> unat q \<le> 2000"
  by (simp add: word_le_nat_alt)

text \<open>
  Claim C3. For a Read Coils request with quantity in [1,2000] and
  \<open>addr + quantity - 1 \<le> 0xFFFF\<close>, and a handler that returns exactly \<open>quantity\<close>
  booleans with a nil error, the response carries the request's function code, and its
  payload is one byte-count byte equal to \<open>ceil(quantity/8)\<close> (it fits the byte), followed by
  \<open>ceil(quantity/8)\<close> bytes of packed bits in which bit \<open>i mod 8\<close> of byte \<open>i div 8\<close>,
  least-significant bit first, is the handler's boolean at position \<open>i\<close>; decoding the body
  gives the handler's booleans back, in order.
\<close>

theorem C3_read_coils_response:
  assumes "functionCode req = FC_READ_COILS"
    and "length (payload req) = 4"
    and "reqQuantity req \<noteq> 0"
    and "reqQuantity req \<le> 2000"
    and "unat (reqAddr req) + unat (reqQuantity req) - 1 \<le> 0xFFFF"
    and "HandleCoils H (unitId req) (reqAddr req) (reqQuantity req) False [] h = ((coils, None), h')"
    and "length coils = unat (reqQuantity req)"
  shows "handleRequest H req t h =
           Some (True,
                 WriteResponse t
                   \<lparr>unitId = unitId req, functionCode = functionCode req,
                    payload = of_nat ((unat (reqQuantity req) + 7) div 8) # encodeBools coils\<rparr>,
                 h')
       \<and> unat (of_nat ((unat (reqQuantity req) + 7) div 8) :: u8)
           = (unat (reqQuantity req) + 7) div 8
       \<and> length (encodeBools coils) = (unat (reqQuantity req) + 7) div 8
       \<and> (\<forall>i < unat (reqQuantity req).
             bit (encodeBools coils ! (i div 8)) (i mod 8) = coils ! i)
       \<and> decodeBools (reqQuantity req) (encodeBools coils) = coils"
proof -
  have inv: "invokeReadBits H req (reqAddr req) (reqQuantity req) h = ((coils, None), h')"
    using assms(1,6) by (simp add: invokeReadBits_def)
  have "dispatch H req h =
      Some (Some \<lparr>unitId = unitId req, functionCode = functionCode req,
                  payload = of_nat ((unat (reqQuantity req) + 7) div 8) # encodeBools coils\<rparr>,
            None, h')"
    using caseReadBits_handler [OF assms(2,3,4,5) inv, unfolded byte_count_word] assms(1,7)
    by (simp add: dispatch_cases)
  then have 1: "handleRequest H req t h =
           Some (True,
                 WriteResponse t
                   \<lparr>unitId = unitId req, functionCode = functionCode req,
                    payload = of_nat ((unat (reqQuantity req) + 7) div 8) # encodeBools coils\<rparr>,
                 h')"
    by (rule handleRequest_response)
  have 2: "unat (of_nat ((unat (reqQuantity req) + 7) div 8) :: u8)
           = (unat (reqQuantity req) + 7) div 8"
    using assms(4) by (intro byte_count_fits unat_le_2000)
  have 3: "length (encodeBools coils) = (unat (reqQuantity req) + 7) div 8"
    using assms(7) by (simp add: length_encodeBools)
  have 4: "\<forall>i < unat (reqQuantity req).
             bit (encodeBools coils ! (i div 8)) (i mod 8) = coils ! i"
    using assms(7) by (simp add: bit_encodeBools)
  have 5: "decodeBools (reqQuantity req) (encodeBools coils) = coils"
    using assms(7) by (rule decodeBools_encodeBools)
  show ?thesis by (intro conjI 1 2 3 4 5)
qed



theorem C3_read_coils_response_witness:
  "handleRequest (fixedHandler [True, False, True, True, False, False, False, False, True, True] [] None)
      \<lparr>unitId = 1, functionCode = FC_READ_COILS, payload = [0, 0x13, 0, 0x0a]\<rparr>
      \<lparr>incoming = [], written = [], closed = False\<rparr> (0::nat)
    = Some (True,
            \<lparr>incoming = [],
             written = [\<lparr>unitId = 1, functionCode = FC_READ_COILS, payload = [2, 0x0d, 0x03]\<rparr>],
             closed = False\<rparr>, 1)
   \<and> decodeBools 10 [0x0d, 0x03]
       = [True, False, True, True, False, False, False, False, True, True]"
proof -
  let ?bs = "[True, False, True, True, False, False, False, False, True, True]"
  have e: "encodeBools ?bs = [0x0d, 0x03]"
    by (simp add: encodeBools_def upt_rec)
  show ?thesis
    using C3_read_coils_response
      [of "\<lparr>unitId = 1, functionCode = FC_READ_COILS, payload = [0, 0x13, 0, 0x0a]\<rparr>"
          "fixedHandler ?bs [] None" 0 ?bs 1 "\<lparr>incoming = [], written = [], closed = False\<rparr>"]
    by (simp add: reqAddr_def reqQuantity_def fixedHandler_def WriteResponse_def e)
qed

section \<open>Registers: big-endian round trip\<close>

lemma bytesToUint16_uint16ToBytes:
  "bytesToUint16 BIG_ENDIAN (uint16ToBytes BIG_ENDIAN v) = v"
  by (simp, rule bit_word_eqI) (auto simp: bit_simps)

lemma bytesToUint16s_uint16sToBytes:
  "bytesToUint16s BIG_ENDIAN (uint16sToBytes BIG_ENDIAN regs) = regs"
proof (induction regs)
  case Nil
  show ?case by simp
next
  case (Cons v vs)
  have "bytesToUint16 BIG_ENDIAN [ucast (drop_bit 8 v), ucast v] = v"
    using bytesToUint16_uint16ToBytes [of v] by simp
  with Cons show ?case by simp
qed

lemma length_uint16sToBytes: "length (uint16sToBytes BIG_ENDIAN regs) = 2 * length regs"
  by (induction regs) simp_all

lemma register_byte_count_fits:
  assumes "n \<le> 125"
  shows "unat (of_nat (n * 2) :: u8) = n * 2"
  using assms unat_of_nat [of "n * 2", where 'a = 8] by simp

lemma unat_le_125: "(q :: u16) \<le> 0x7d \<Longrightarrow> unat q \<le> 125"
  by (simp add: word_le_nat_alt)

text \<open>
  Claim C8. The success response of Read Holding Registers has as payload the byte count
  \<open>2 * quantity\<close> (it fits the byte) followed by the big-endian 16-bit values; for every
  register list of length \<open>quantity\<close> in [1,0x7D], decoding the encoded register body gives
  the list back. For the values [1,2,3] the register body is 00 01 00 02 00 03, and
  decoding it yields [1,2,3]; the concrete run after the theorem shows the whole payload
  06 00 01 00 02 00 03.
\<close>

theorem C8_registers_round_trip:
  assumes "functionCode req = FC_READ_HOLDING_REGISTERS"
    and "length (payload req) = 4"
    and "reqQuantity req \<noteq> 0"
    and "reqQuantity req \<le> 0x7d"
    and "unat (reqAddr req) + unat (reqQuantity req) - 1 \<le> 0xFFFF"
    and "HandleHoldingRegisters H (unitId req) (reqAddr req) (reqQuantity req) False [] h
           = ((regs, None), h')"
    and "length regs = unat (reqQuantity req)"
  shows "handleRequest H req t h =
           Some (True,
                 WriteResponse t
                   \<lparr>unitId = unitId req, functionCode = functionCode req,
                    payload = of_nat (length regs * 2) # uint16sToBytes BIG_ENDIAN regs\<rparr>,
                 h')
       \<and> unat (of_nat (length regs * 2) :: u8) = length regs * 2
       \<and> length (uint16sToBytes BIG_ENDIAN regs) = 2 * length regs
       \<and> bytesToUint16s BIG_ENDIAN (uint16sToBytes BIG_ENDIAN regs) = regs
       \<and> uint16sToBytes BIG_ENDIAN [1, 2, 3] = [0, 1, 0, 2, 0, 3]
       \<and> bytesToUint16s BIG_ENDIAN [0, 1, 0, 2, 0, 3] = [1, 2, 3]"
proof -
  have inv: "invokeReadRegisters H req (reqAddr req) (reqQuantity req) h = ((regs, None), h')"
    using assms(1,6) by (simp add: invokeReadRegisters_def)
  have "dispatch H req h =
      Some (Some \<lparr>unitId = unitId req, functionCode = functionCode req,
                  payload = of_nat (length regs * 2) # uint16sToBytes BIG_ENDIAN regs\<rparr>,
            None, h')"
    using caseReadRegisters_handler [OF assms(2,3,4,5) inv] assms(1,7)
    by (simp add: dispatch_cases)
  then have 1: "handleRequest H req t h =
           Some (True,
                 WriteResponse t
                   \<lparr>unitId = unitId req, functionCode = functionCode req,
                    payload = of_nat (length regs * 2) # uint16sToBytes BIG_ENDIAN regs\<rparr>,
                 h')"
    by (rule handleRequest_response)
  have 2: "unat (of_nat (length regs * 2) :: u8) = length regs * 2"
    using assms(4,7) by (intro register_byte_count_fits) (simp add: unat_le_125)
  have 3: "length (uint16sToBytes BIG_ENDIAN regs) = 2 * length regs"
    by (rule length_uint16sToBytes)
  have 4: "bytesToUint16s BIG_ENDIAN (uint16sToBytes BIG_ENDIAN regs) = regs"
    by (rule bytesToUint16s_uint16sToBytes)
  have 5: "uint16sToBytes BIG_ENDIAN [1, 2, 3] = [0, 1, 0, 2, 0, 3]"
    by simp
  have 6: "bytesToUint16s BIG_ENDIAN [0, 1, 0, 2, 0, 3] = [1, 2, 3]"
    by simp
  show ?thesis by (intro conjI 1 2 3 4 5 6)
qed

theorem C8_registers_round_trip_witness:
  "handleRequest (fixedHandler [] [1, 2, 3] None)
      \<lparr>unitId = 1, functionCode = FC_READ_HOLDING_REGISTERS, payload = [0, 0x6b, 0, 3]\<rparr>
      \<lparr>incoming = [], written = [], closed = False\<rparr> (0::nat)
    = Some (True,
            \<lparr>incoming = [],
             written = [\<lparr>unitId = 1, functionCode = FC_READ_HOLDING_REGISTERS,
                         payload = [0x06, 0x00, 0x01, 0x00, 0x02, 0x00, 0x03]\<rparr>],
             closed = False\<rparr>, 1)
   \<and> bytesToUint16s BIG_ENDIAN [0x00, 0x01, 0x00, 0x02, 0x00, 0x03] = [1, 2, 3]"
  using C8_registers_round_trip
    [of "\<lparr>unitId = 1, functionCode = FC_READ_HOLDING_REGISTERS, payload = [0, 0x6b, 0, 3]\<rparr>"
        "fixedHandler [] [1, 2, 3] None" 0 "[1, 2, 3]" 1
        "\<lparr>incoming = [], written = [], closed = False\<rparr>"]
  by (simp add: reqAddr_def reqQuantity_def fixedHandler_def WriteResponse_def)

section \<open>The connection limit\<close>

lemma NewServer_fields:
  assumes "NewServer c = Inr ms"
  shows "tcpClients ms = []" "transportType ms = TCP_TRANSPORT" "\<not> started ms"
  using assms by (auto simp: NewServer_def split: if_splits)

lemma Start_fields:
  "tcpClients (fst (Start ms e)) = tcpClients ms"
  "conf (fst (Start ms e)) = conf ms"
  "transportType (fst (Start ms e)) = transportType ms"
  by (auto simp: Start_def split: transportType.splits option.splits)

lemma Stop_fields:
  "tcpClients (fst (Stop ms e)) = tcpClients ms"
  "conf (fst (Stop ms e)) = conf ms"
  "transportType (fst (Stop ms e)) = transportType ms"
  by (auto simp: Stop_def Let_def)

lemma length_removeClient: "length (removeClient sock cs i) \<le> length cs"
proof (induction sock cs i rule: removeClient.induct)
  case (1 sock cs i)
  then show ?case
    by (subst removeClient.simps) auto
qed

lemma admission_check:
  assumes "length cs \<le> unat (m :: uint)"
  shows "((of_nat (length cs) :: uint) < m) = (length cs < unat m)"
proof -
  have "unat m < 2 ^ LENGTH(64)" by (rule unsigned_less)
  with assms have "length cs < 2 ^ LENGTH(64)" by linarith
  then have "unat (of_nat (length cs) :: uint) = length cs"
    by (simp add: unat_of_nat)
  then show ?thesis by (simp add: word_less_nat_alt)
qed

lemma acceptTCPClient_bound:
  assumes "length (tcpClients ms) \<le> unat (MaxClients (conf ms))"
  shows "length (tcpClients (acceptTCPClient ms sock)) \<le> unat (MaxClients (conf ms))"
    and "conf (acceptTCPClient ms sock) = conf ms"
  using assms admission_check [OF assms]
  by (auto simp: acceptTCPClient_def)

lemma reachable_bound:
  "reachable ms \<Longrightarrow> length (tcpClients ms) \<le> unat (MaxClients (conf ms))"
proof (induction rule: reachable.induct)
  case (r_new c ms)
  then show ?case by (simp add: NewServer_fields)
next
  case (r_start ms listenErr)
  then show ?case by (simp add: Start_fields)
next
  case (r_stop ms closeErr)
  then show ?case by (simp add: Stop_fields)
next
  case (r_accept ms sock)
  then show ?case by (simp add: acceptTCPClient_bound)
next
  case (r_done ms sock)
  have "length (removeClient sock (tcpClients ms) 0) \<le> length (tcpClients ms)"
    by (rule length_removeClient)
  with r_done show ?case by (simp add: handleTCPClientDone_def)
qed

text \<open>
  Claim C2. In every reachable state of the server, whatever the order of admissions by
  the accept loop, deregistrations by the workers, \<open>Start\<close> and \<open>Stop\<close>, the length of
  \<open>tcpClients\<close> is at most \<open>MaxClients\<close>. An accepted connection is appended to the set,
  and handed to a worker, only when the size of the set is strictly below \<open>MaxClients\<close>;
  otherwise it is closed, the set is left as it is and no worker is started for it. The
  bound holds again after the admission.
\<close>

theorem C2_connection_limit:
  assumes "reachable ms"
  shows "length (tcpClients ms) \<le> unat (MaxClients (conf ms))
       \<and> acceptTCPClient ms sock =
           (if length (tcpClients ms) < unat (MaxClients (conf ms))
            then ms\<lparr>tcpClients := tcpClients ms @ [sock], served := served ms @ [sock]\<rparr>
            else ms\<lparr>closedSocks := closedSocks ms @ [sock]\<rparr>)
       \<and> length (tcpClients (acceptTCPClient ms sock)) \<le> unat (MaxClients (conf ms))"
proof -
  have b: "length (tcpClients ms) \<le> unat (MaxClients (conf ms))"
    using assms by (rule reachable_bound)
  have a: "acceptTCPClient ms sock =
           (if length (tcpClients ms) < unat (MaxClients (conf ms))
            then ms\<lparr>tcpClients := tcpClients ms @ [sock], served := served ms @ [sock]\<rparr>
            else ms\<lparr>closedSocks := closedSocks ms @ [sock]\<rparr>)"
    using admission_check [OF b] by (simp add: acceptTCPClient_def)
  show ?thesis
    by (intro conjI b a acceptTCPClient_bound(1) [OF b])
qed

theorem C2_connection_limit_witness:
  "reachable
     \<lparr>conf = \<lparr>URL = ''[::]:502'', Timeout = 120000000000, MaxClients = 2\<rparr>,
      started = True, tcpClients = [1, 2], transportType = TCP_TRANSPORT,
      listenerOpen = True, closedSocks = [], served = [1, 2]\<rparr>
   \<and> acceptTCPClient
       \<lparr>conf = \<lparr>URL = ''[::]:502'', Timeout = 120000000000, MaxClients = 2\<rparr>,
        started = True, tcpClients = [1, 2], transportType = TCP_TRANSPORT,
        listenerOpen = True, closedSocks = [], served = [1, 2]\<rparr> 3
     = \<lparr>conf = \<lparr>URL = ''[::]:502'', Timeout = 120000000000, MaxClients = 2\<rparr>,
        started = True, tcpClients = [1, 2], transportType = TCP_TRANSPORT,
        listenerOpen = True, closedSocks = [3], served = [1, 2]\<rparr>"
proof -
  let ?c = "\<lparr>URL = ''tcp://[::]:502'', Timeout = 0, MaxClients = 2\<rparr>"
  let ?c' = "\<lparr>URL = ''[::]:502'', Timeout = 120000000000, MaxClients = 2\<rparr>"
  let ?ms0 = "\<lparr>conf = ?c', started = False, tcpClients = [], transportType = TCP_TRANSPORT,
      listenerOpen = False, closedSocks = [], served = []\<rparr>"
  let ?ms2 = "\<lparr>conf = ?c', started = True, tcpClients = [1, 2], transportType = TCP_TRANSPORT,
      listenerOpen = True, closedSocks = [], served = [1, 2]\<rparr>"
  have "NewServer ?c = Inr ?ms0"
    by (simp add: NewServer_def)
  then have "reachable ?ms0" by (rule r_new)
  then have "reachable (fst (Start ?ms0 None))" by (rule r_start)
  then have "reachable (acceptTCPClient (fst (Start ?ms0 None)) 1)" by (rule r_accept)
  then have "reachable (acceptTCPClient (acceptTCPClient (fst (Start ?ms0 None)) 1) 2)"
    by (rule r_accept)
  moreover have "acceptTCPClient (acceptTCPClient (fst (Start ?ms0 None)) 1) 2 = ?ms2"
    by (simp add: Start_def acceptTCPClient_def)
  ultimately have r: "reachable ?ms2" by simp
  show ?thesis
    using r C2_connection_limit [OF r, of 3] by simp
qed

section \<open>Stop\<close>











end
